theory Spec2Isabelle
  imports Complex_Main "HOL-Library.Multiset" "HOL-Library.AList"
begin

section \<open>Python string and path operations used by read.py\<close>

text \<open>
  Strings are lists of characters. The characters the program inspects (separators,
  digits, signs, dots, slashes, letters it lower-cases for the extension tables) are all
  ASCII; \<open>isspace\<close> and \<open>lower\<close> below are Python's \<open>str.isspace\<close> and
  \<open>str.lower\<close> on ASCII and leave every other character alone. Python also
  lower-cases letters outside ASCII and also splits and strips at whitespace outside
  ASCII: on strings that hold such characters the definitions below and the program can
  differ, and every example in this theory is ASCII.
\<close>

definition isspace :: "char \<Rightarrow> bool" where
  "isspace c \<longleftrightarrow>
     c \<in> set [CHR 0x09, CHR 0x0A, CHR 0x0B, CHR 0x0C, CHR 0x0D,
               CHR 0x1C, CHR 0x1D, CHR 0x1E, CHR 0x1F, CHR '' '']"

text \<open>\<open>s.strip()\<close>: whitespace removed at both ends.\<close>

definition strip :: "string \<Rightarrow> string" where
  "strip s = rev (dropWhile isspace (rev (dropWhile isspace s)))"

definition lower_char :: "char \<Rightarrow> char" where
  "lower_char c =
     (case map_of (zip ''ABCDEFGHIJKLMNOPQRSTUVWXYZ'' ''abcdefghijklmnopqrstuvwxyz'') c of
        Some l \<Rightarrow> l
      | None \<Rightarrow> c)"

text \<open>\<open>s.lower()\<close>.\<close>

definition lower :: "string \<Rightarrow> string" where
  "lower s = map lower_char s"

text \<open>\<open>s.startswith(p)\<close>.\<close>

definition startswith :: "string \<Rightarrow> string \<Rightarrow> bool" where
  "startswith p s \<longleftrightarrow> take (length p) s = p"

text \<open>\<open>a in b\<close> on strings: \<open>a\<close> occurs in \<open>b\<close> as a contiguous substring.\<close>

fun contains :: "string \<Rightarrow> string \<Rightarrow> bool" where
  "contains a [] \<longleftrightarrow> a = []"
| "contains a (c # cs) \<longleftrightarrow> take (length a) (c # cs) = a \<or> contains a cs"

text \<open>\<open>s.split(sep)\<close> for a one-character separator: every separator cuts, empty
  pieces are kept, and the empty string gives one empty piece.\<close>

fun split_sep :: "char \<Rightarrow> string \<Rightarrow> string list" where
  "split_sep sep [] = [[]]"
| "split_sep sep (c # cs) =
     (if c = sep then [] # split_sep sep cs
      else (case split_sep sep cs of
              p # ps \<Rightarrow> (c # p) # ps
            | [] \<Rightarrow> [[c]]))"

text \<open>
  \<open>s.split(maxsplit=n)\<close>: split at runs of whitespace, at most \<open>n\<close> times; leading
  whitespace is skipped before every piece, and after \<open>n\<close> pieces the rest of the string
  (its leading whitespace skipped, its trailing whitespace kept) is the last piece.
\<close>

fun split_ws :: "nat \<Rightarrow> string \<Rightarrow> string list" where
  "split_ws 0 s =
     (let r = dropWhile isspace s in if r = [] then [] else [r])"
| "split_ws (Suc n) s =
     (let r = dropWhile isspace s
      in if r = [] then []
         else takeWhile (\<lambda>c. \<not> isspace c) r # split_ws n (dropWhile (\<lambda>c. \<not> isspace c) r))"

text \<open>\<open>p.rfind(c)\<close>: the highest index of \<open>c\<close> in \<open>p\<close>, or \<open>-1\<close>.\<close>

definition rfind :: "string \<Rightarrow> char \<Rightarrow> int" where
  "rfind p c =
     (if c \<in> set p
      then int (length p) - 1 - int (length (takeWhile (\<lambda>x. x \<noteq> c) (rev p)))
      else - 1)"

text \<open>\<open>os.path.basename\<close> (posixpath): \<open>p[p.rfind('/') + 1:]\<close>.\<close>

definition basename :: "string \<Rightarrow> string" where
  "basename p = drop (nat (rfind p CHR ''/'' + 1)) p"

text \<open>
  \<open>os.path.splitext\<close> (posixpath, \<open>genericpath._splitext\<close>):
  \<^verbatim>\<open>
    sepIndex = p.rfind(sep)
    dotIndex = p.rfind(extsep)
    if dotIndex > sepIndex:
        # skip all leading dots
        filenameIndex = sepIndex + 1
        while filenameIndex < dotIndex:
            if p[filenameIndex:filenameIndex+1] != extsep:
                return p[:dotIndex], p[dotIndex:]
            filenameIndex += 1
    return p, p[:0]
  \<close>
  \<open>skip_leading_dots\<close> is the while loop: it tells whether the loop reaches a character
  other than the dot before \<open>dotIndex\<close>, that is, whether the loop returns the split.
\<close>

function skip_leading_dots :: "string \<Rightarrow> nat \<Rightarrow> nat \<Rightarrow> bool" where
  "skip_leading_dots p filenameIndex dotIndex =
     (if filenameIndex < dotIndex
      then (if p ! filenameIndex \<noteq> CHR ''.'' then True
            else skip_leading_dots p (Suc filenameIndex) dotIndex)
      else False)"
  by pat_completeness auto
termination
  by (relation "measure (\<lambda>(p, filenameIndex, dotIndex). dotIndex - filenameIndex)") auto

declare skip_leading_dots.simps [simp del]

definition splitext :: "string \<Rightarrow> string \<times> string" where
  "splitext p =
     (let sepIndex = rfind p CHR ''/'';
          dotIndex = rfind p CHR ''.''
      in if dotIndex > sepIndex \<and> skip_leading_dots p (nat (sepIndex + 1)) (nat dotIndex)
         then (take (nat dotIndex) p, drop (nat dotIndex) p)
         else (p, []))"

text \<open>
  \<open>int(s)\<close> for a string: surrounding whitespace is ignored, one sign is allowed, and the
  digits may be grouped by single underscores between digits. \<open>None\<close> is ValueError.
  Only the ASCII digits are read as digits here, and a numeral may be of any length;
  Python's \<open>int\<close> also reads the decimal digits of other scripts, and recent versions
  raise ValueError on a numeral of more than 4300 digits.
\<close>

definition isdigit :: "char \<Rightarrow> bool" where
  "isdigit c \<longleftrightarrow> c \<in> set ''0123456789''"

definition digit_val :: "char \<Rightarrow> int" where
  "digit_val c = int (length (takeWhile (\<lambda>d. d \<noteq> c) ''0123456789''))"

fun digits_ok :: "string \<Rightarrow> bool" where
  "digits_ok [] \<longleftrightarrow> False"
| "digits_ok [c] \<longleftrightarrow> isdigit c"
| "digits_ok (c # d # cs) \<longleftrightarrow>
     isdigit c \<and> (if d = CHR ''_'' then digits_ok cs else digits_ok (d # cs))"

definition decimal :: "string \<Rightarrow> int" where
  "decimal ds = foldl (\<lambda>n c. 10 * n + digit_val c) 0 ds"

definition py_int :: "string \<Rightarrow> int option" where
  "py_int s =
     (let t = strip s;
          (sign, body) =
            (case t of
               [] \<Rightarrow> (1, t)
             | c # r \<Rightarrow>
                 if c = CHR ''-'' then (- 1, r)
                 else if c = CHR ''+'' then (1, r)
                 else (1, t))
      in if digits_ok body
         then Some (sign * decimal (filter (\<lambda>c. c \<noteq> CHR ''_'') body))
         else None)"

section \<open>Configuration tables\<close>

text \<open>The dict literal \<open>EXTENSIONS\<close>, in the order it is written; a lookup is \<open>map_of\<close>.\<close>

definition EXTENSIONS :: "(string \<times> string) list" where
  "EXTENSIONS =
     [(''.py'', ''Python''), (''.js'', ''JavaScript''), (''.ts'', ''TypeScript''),
      (''.rs'', ''Rust''), (''.html'', ''HTML''), (''.css'', ''CSS''), (''.scss'', ''CSS''),
      (''.c'', ''C''), (''.h'', ''C''), (''.hpp'', ''C++''), (''.cpp'', ''C++''),
      (''.cc'', ''C++''), (''.cu'', ''CUDA''), (''.cuh'', ''CUDA''), (''.java'', ''Java''),
      (''.go'', ''Go''), (''.rb'', ''Ruby''), (''.php'', ''PHP''), (''.sh'', ''Shell''),
      (''.bash'', ''Shell''), (''.zsh'', ''Shell''), (''.md'', ''Markdown''),
      (''.json'', ''JSON''), (''.yaml'', ''YAML''), (''.yml'', ''YAML''), (''.sql'', ''SQL''),
      (''.dockerfile'', ''Docker''), (''dockerfile'', ''Docker''), (''.xml'', ''XML''),
      (''.vue'', ''Vue''), (''.jsx'', ''React''), (''.tsx'', ''React''),
      (''.toml'', ''TOML''), (''.lua'', ''Lua'')]"

definition IGNORE_EXTENSIONS :: "string set" where
  "IGNORE_EXTENSIONS =
     {''.lock'', ''.svg'', ''.map'', ''.csv'', ''.tsv'', ''.min.js'', ''.min.css'',
      ''.jsonl'', ''.ipynb'', ''.png'', ''.jpg'', ''.jpeg'', ''.gif'', ''.ico'', ''.webp''}"

definition IGNORE_EXACT_FILES :: "string set" where
  "IGNORE_EXACT_FILES =
     {''package-lock.json'', ''yarn.lock'', ''pnpm-lock.yaml'', ''composer.lock'',
      ''Cargo.lock'', ''Gemfile.lock'', ''poetry.lock''}"

section \<open>Identity matching: is_me\<close>

text \<open>
  \<open>MY_EMAILS\<close> and \<open>MY_NAMES\<close> are the two global sets the operator fills in; they are
  parameters here.
\<close>

definition is_me :: "string set \<Rightarrow> string set \<Rightarrow> string \<Rightarrow> string \<Rightarrow> bool" where
  "is_me MY_EMAILS MY_NAMES name email \<longleftrightarrow>
     (if email \<in> MY_EMAILS \<or> name \<in> MY_NAMES then True
      else (\<exists>my_id \<in> MY_EMAILS. contains my_id email))"

section \<open>Commit log parsing: parse_git_log\<close>

text \<open>The dict \<open>current_commit\<close>.\<close>

record commit =
  hash :: string
  date :: string
  name :: string
  email :: string
  additions :: int
  deletions :: int
  files :: int

text \<open>
  The body of the \<open>elif current_commit and line.strip()\<close> branch: one line of
  \<open>--numstat\<close> output applied to the current commit. The two \<open>continue\<close> statements and
  a line of fewer than three fields leave the commit as it is. \<open>int\<close> raising ValueError
  leaves the \<open>try\<close> block at that statement: what was assigned before it stays.
\<close>

definition numstat_line :: "commit \<Rightarrow> string \<Rightarrow> commit" where
  "numstat_line current_commit line =
     (let parts = split_ws 2 line
      in if length parts \<ge> 3 then
           (let added = parts ! 0;
                deleted = parts ! 1;
                filename = strip (parts ! 2)
            in if basename filename \<in> IGNORE_EXACT_FILES then current_commit
               else if lower (snd (splitext filename)) \<in> IGNORE_EXTENSIONS then current_commit
               else
                 (case (if added \<noteq> ''-''
                        then map_option
                               (\<lambda>n. current_commit\<lparr>additions := additions current_commit + n\<rparr>)
                               (py_int added)
                        else Some current_commit) of
                    None \<Rightarrow> current_commit
                  | Some c1 \<Rightarrow>
                      (case (if deleted \<noteq> ''-''
                             then map_option (\<lambda>n. c1\<lparr>deletions := deletions c1 + n\<rparr>)
                                    (py_int deleted)
                             else Some c1) of
                         None \<Rightarrow> c1
                       | Some c2 \<Rightarrow> c2\<lparr>files := files c2 + 1\<rparr>)))
         else current_commit)"

text \<open>\<open>if current_commit: if is_me(...): commits.append(current_commit)\<close>.\<close>

definition save_commit ::
  "string set \<Rightarrow> string set \<Rightarrow> commit list \<Rightarrow> commit option \<Rightarrow> commit list" where
  "save_commit MY_EMAILS MY_NAMES commits current_commit =
     (case current_commit of
        None \<Rightarrow> commits
      | Some c \<Rightarrow> if is_me MY_EMAILS MY_NAMES (name c) (email c) then commits @ [c] else commits)"

text \<open>
  The loop over \<open>result.stdout.splitlines()\<close>, with the state \<open>commits\<close> and
  \<open>current_commit\<close>. A header line with fewer than five \<open>|\<close>-separated fields raises
  IndexError after the previous commit was saved; the outer \<open>except Exception\<close> catches
  it and the function returns the commits saved so far.
\<close>

fun parse_loop ::
  "string set \<Rightarrow> string set \<Rightarrow> string list \<Rightarrow> commit list \<Rightarrow> commit option \<Rightarrow> commit list"
where
  "parse_loop MY_EMAILS MY_NAMES [] commits current_commit =
     save_commit MY_EMAILS MY_NAMES commits current_commit"
| "parse_loop MY_EMAILS MY_NAMES (line # rest) commits current_commit =
     (if startswith ''HEADER|'' line then
        (let commits' = save_commit MY_EMAILS MY_NAMES commits current_commit;
             parts = split_sep CHR ''|'' line
         in if length parts < 5 then commits'
            else parse_loop MY_EMAILS MY_NAMES rest commits'
                   (Some \<lparr>hash = parts ! 1, date = parts ! 2, name = strip (parts ! 3),
                          email = lower (strip (parts ! 4)),
                          additions = 0, deletions = 0, files = 0\<rparr>))
      else
        (case current_commit of
           Some c \<Rightarrow>
             if strip line \<noteq> []
             then parse_loop MY_EMAILS MY_NAMES rest commits (Some (numstat_line c line))
             else parse_loop MY_EMAILS MY_NAMES rest commits current_commit
         | None \<Rightarrow> parse_loop MY_EMAILS MY_NAMES rest commits current_commit))"

text \<open>
  \<open>parse_git_log\<close>, from the lines of the \<open>git log\<close> output on. A subprocess that
  fails to start leaves \<open>commits\<close> empty, as an empty output does.
\<close>

definition parse_git_log :: "string set \<Rightarrow> string set \<Rightarrow> string list \<Rightarrow> commit list" where
  "parse_git_log MY_EMAILS MY_NAMES stdout_lines =
     parse_loop MY_EMAILS MY_NAMES stdout_lines [] None"

section \<open>Language snapshot: get_current_languages\<close>

text \<open>\<open>d[k] += n\<close> on a \<open>defaultdict(int)\<close>, kept in insertion order.\<close>

fun incr :: "string \<Rightarrow> int \<Rightarrow> (string \<times> int) list \<Rightarrow> (string \<times> int) list" where
  "incr k n [] = [(k, n)]"
| "incr k n ((k', v) # kvs) = (if k = k' then (k', v + n) # kvs else (k', v) # incr k n kvs)"

text \<open>From the lines of the \<open>git ls-files\<close> output on.\<close>

definition get_current_languages :: "string list \<Rightarrow> (string \<times> int) list" where
  "get_current_languages stdout_lines =
     fold (\<lambda>file languages.
             let ext = lower (snd (splitext file))
             in (case map_of EXTENSIONS ext of
                   Some lang \<Rightarrow> incr lang 1 languages
                 | None \<Rightarrow> languages))
          stdout_lines []"

section \<open>Active time: estimate_hours\<close>

text \<open>The dict \<open>flat_commit\<close> of \<open>main\<close>.\<close>

record flat_commit =
  date :: string
  repo :: string
  additions :: int
  deletions :: int
  impact :: int

text \<open>
  \<open>fromisoformat\<close> stands for \<open>datetime.fromisoformat\<close> on the author dates git prints
  with \<open>%aI\<close> (offset-aware, whole seconds): it gives the instant in seconds. Comparing
  and subtracting offset-aware datetimes compares and subtracts these instants. The
  result is \<open>total_seconds / 3600\<close> as an exact quotient.
\<close>

definition estimate_hours :: "(string \<Rightarrow> int) \<Rightarrow> flat_commit list \<Rightarrow> real" where
  "estimate_hours fromisoformat commits =
     (if commits = [] then 0
      else
        let dates = sort (map (\<lambda>c. fromisoformat (flat_commit.date c)) commits);
            total_seconds =
              fold (\<lambda>i total_seconds.
                      let diff = dates ! i - dates ! (i - 1)
                      in if diff < 7200 then total_seconds + diff else total_seconds + 3600)
                   [1 ..< length dates] (0 + 3600)
        in real_of_int total_seconds / 3600)"

section \<open>The pipeline: main\<close>

record dataset =
  detailed_commits :: "flat_commit list"
  languages :: "(string \<times> int) list"
  repos :: "(string \<times> int) list"
  total_hours_estimated :: real

text \<open>
  One round of \<open>for repo_path in repos\<close>, on the accumulators \<open>all_commits\<close>,
  \<open>language_counts\<close> and \<open>repo_totals\<close>. \<open>git_log\<close> and \<open>ls_files\<close> give the output
  lines of the two git commands for a repository path.
\<close>

text \<open>The dict \<open>flat_commit\<close> that \<open>main\<close> builds from a parsed commit \<open>c\<close>.\<close>

definition flat_commit_of :: "string \<Rightarrow> commit \<Rightarrow> flat_commit" where
  "flat_commit_of repo_name c =
     \<lparr>date = commit.date c, repo = repo_name,
      additions = commit.additions c, deletions = commit.deletions c,
      impact = commit.additions c + commit.deletions c\<rparr>"

definition main_repo ::
  "string set \<Rightarrow> string set \<Rightarrow> (string \<Rightarrow> string list) \<Rightarrow> (string \<Rightarrow> string list) \<Rightarrow> string \<Rightarrow>
   flat_commit list \<times> (string \<times> int) list \<times> (string \<times> int) list \<Rightarrow>
   flat_commit list \<times> (string \<times> int) list \<times> (string \<times> int) list" where
  "main_repo MY_EMAILS MY_NAMES git_log ls_files repo_path acc =
     (case acc of (all_commits, language_counts, repo_totals) \<Rightarrow>
        let repo_name = basename repo_path;
            repo_commits = parse_git_log MY_EMAILS MY_NAMES (git_log repo_path);
            all_commits' =
              fold (\<lambda>c all_commits. all_commits @ [flat_commit_of repo_name c])
                   repo_commits all_commits;
            repo_langs = get_current_languages (ls_files repo_path);
            language_counts' =
              fold (\<lambda>(lang, count) language_counts. incr lang count language_counts)
                   repo_langs language_counts;
            repo_totals' =
              (if length repo_commits > 0
               then AList.update repo_name (int (length repo_commits)) repo_totals
               else repo_totals)
        in (all_commits', language_counts', repo_totals'))"

text \<open>
  \<open>main\<close>, from the list \<open>repo_paths\<close> of repository paths that \<open>get_git_repos\<close>
  returned (the local variable \<open>repos\<close>) on, up to the dict \<open>export_data\<close> (without its
  \<open>generated_at\<close> clock reading).
\<close>

definition main ::
  "string set \<Rightarrow> string set \<Rightarrow> (string \<Rightarrow> int) \<Rightarrow> (string \<Rightarrow> string list) \<Rightarrow>
   (string \<Rightarrow> string list) \<Rightarrow> string list \<Rightarrow> dataset" where
  "main MY_EMAILS MY_NAMES fromisoformat git_log ls_files repo_paths =
     (case fold (main_repo MY_EMAILS MY_NAMES git_log ls_files) repo_paths ([], [], []) of
        (all_commits, language_counts, repo_totals) \<Rightarrow>
          \<lparr>detailed_commits = all_commits,
           languages = language_counts,
           repos = repo_totals,
           total_hours_estimated = estimate_hours fromisoformat all_commits\<rparr>)"

section \<open>The estimator as the specification words it\<close>

text \<open>
  The specification's session-gap heuristic on an ascending timeline: one hour, plus for
  each consecutive pair the gap itself when it is under two hours and a flat hour
  otherwise. \<open>credit\<close> is what one gap adds, in seconds.
\<close>

definition credit :: "int \<Rightarrow> int" where
  "credit gap = (if gap < 7200 then gap else 3600)"

fun gap_credits :: "int list \<Rightarrow> int" where
  "gap_credits [] = 0"
| "gap_credits [a] = 0"
| "gap_credits (a # b # ts) = credit (b - a) + gap_credits (b # ts)"

definition estimate_spec :: "int list \<Rightarrow> real" where
  "estimate_spec ts = (if ts = [] then 0 else 1 + real_of_int (gap_credits ts) / 3600)"

text \<open>The instants of a list of commits, in the order of the list.\<close>

abbreviation instants :: "(string \<Rightarrow> int) \<Rightarrow> flat_commit list \<Rightarrow> int list" where
  "instants clock cs \<equiv> map (\<lambda>c. clock (flat_commit.date c)) cs"

section \<open>The identity matcher as the specification words it\<close>

text \<open>
  The specification's \<open>matches(authorName, authorEmail)\<close>: the email equals a
  configured email under case-insensitive comparison, or the name exactly equals a
  configured name, or the email contains a configured email as a substring.
\<close>

definition matches_spec :: "string set \<Rightarrow> string set \<Rightarrow> string \<Rightarrow> string \<Rightarrow> bool" where
  "matches_spec target_emails target_names authorName authorEmail \<longleftrightarrow>
     (\<exists>e \<in> target_emails. lower e = lower authorEmail)
     \<or> authorName \<in> target_names
     \<or> (\<exists>e \<in> target_emails. contains e authorEmail)"

section \<open>Sample data\<close>

text \<open>
  The instants (seconds since the epoch) of the date strings the examples use, as
  \<open>datetime.fromisoformat\<close> reads them; \<open>commit_at\<close> is a flattened commit with that date.
\<close>

definition sample_clock :: "string \<Rightarrow> int" where
  "sample_clock s =
     (case map_of
        [(''2024-01-01T10:00:00+00:00'', 1704103200),
         (''2024-01-01T10:30:00+00:00'', 1704105000),
         (''2024-01-01T11:00:00+00:00'', 1704106800),
         (''2024-01-01T11:50:00+00:00'', 1704109800),
         (''2024-01-01T12:00:00+00:00'', 1704110400),
         (''2024-01-01T15:00:00+00:00'', 1704121200),
         (''2024-01-01T20:00:00+00:00'', 1704139200)] s of
        Some t \<Rightarrow> t
      | None \<Rightarrow> 0)"

definition commit_at :: "string \<Rightarrow> flat_commit" where
  "commit_at d = \<lparr>date = d, repo = ''A'', additions = 0, deletions = 0, impact = 0\<rparr>"

text \<open>The line \<open>git log --numstat\<close> prints for one file: the two counts and the path,
  separated by tabs.\<close>

definition numstat :: "string \<Rightarrow> string \<Rightarrow> string \<Rightarrow> string" where
  "numstat added deleted path = added @ [CHR 0x09] @ deleted @ [CHR 0x09] @ path"

text \<open>
  Three repositories. \<open>web\<close> holds one commit of the operator at 10:00, \<open>api\<close> one
  commit of the operator at 10:30 and, before it, one of another author; \<open>tools\<close> holds
  two commits of the operator, printed most recent first as \<open>git log\<close> does.
\<close>

definition sample_git_log :: "string \<Rightarrow> string list" where
  "sample_git_log repo_path =
     (if repo_path = ''/home/me/Development/web'' then
        [''HEADER|w1|2024-01-01T10:00:00+00:00|Me|me@x.com'', [],
         numstat ''3'' ''1'' ''index.html'']
      else if repo_path = ''/home/me/Development/api'' then
        [''HEADER|p2|2024-01-01T11:00:00+00:00|Other|other@y.com'', [],
         numstat ''1'' ''1'' ''x.py'',
         ''HEADER|p1|2024-01-01T10:30:00+00:00|Me|Me@X.com'', [],
         numstat ''5'' ''0'' ''lib.rs'']
      else if repo_path = ''/home/me/Development/tools'' then
        [''HEADER|t2|2024-01-01T12:00:00+00:00|Me|me@x.com'', [],
         numstat ''10'' ''2'' ''src/main.py'',
         numstat ''-'' ''-'' ''assets/logo.bin'',
         ''HEADER|t1|2024-01-01T10:00:00+00:00|Me|me@x.com'', [],
         numstat ''3'' ''1'' ''README.md'',
         numstat ''7'' ''7'' ''yarn.lock'']
      else [])"

definition sample_ls_files :: "string \<Rightarrow> string list" where
  "sample_ls_files repo_path =
     (if repo_path = ''/home/me/Development/tools''
      then [''src/main.py'', ''README.md'', ''Dockerfile'']
      else [])"

text \<open>A log whose one numstat line carries a signed count.\<close>

definition signed_count_log :: "string \<Rightarrow> string list" where
  "signed_count_log repo_path =
     [''HEADER|s1|2024-01-01T10:00:00+00:00|Me|me@x.com'', [],
      numstat ''-5'' ''3'' ''a.py'']"

section \<open>What git prints\<close>

text \<open>
  In \<open>--numstat\<close> output each count is either the sentinel \<open>-\<close> (a binary file) or an
  unsigned decimal numeral. \<open>git_numstat_counts\<close> says so of the first two fields of a
  line, as the parser splits it.
\<close>

definition git_numstat_counts :: "string \<Rightarrow> bool" where
  "git_numstat_counts line \<longleftrightarrow>
     list_all (\<lambda>field. field = ''-'' \<or> (field \<noteq> [] \<and> list_all isdigit field))
       (take 2 (split_ws 2 line))"

text \<open>The two counts of a parsed commit are not negative.\<close>

definition counts_nonneg :: "commit \<Rightarrow> bool" where
  "counts_nonneg c \<longleftrightarrow> 0 \<le> commit.additions c \<and> 0 \<le> commit.deletions c"

section \<open>The estimator\<close>

lemma gap_credits_snoc:
  "gap_credits (ts @ [a, b]) = gap_credits (ts @ [a]) + credit (b - a)"
  by (induction ts rule: gap_credits.induct) auto

lemma session_loop_gap_credits:
  "n < length ds \<Longrightarrow>
   fold (\<lambda>i total. let diff = ds ! i - ds ! (i - 1)
                     in if diff < 7200 then total + diff else total + 3600)
        [1 ..< Suc n] acc
   = acc + gap_credits (take (Suc n) ds)"
proof (induction n)
  case 0
  then show ?case by (cases ds) auto
next
  case (Suc n)
  have t: "take (Suc (Suc n)) ds = take n ds @ [ds ! n, ds ! Suc n]"
    using Suc.prems by (simp add: take_Suc_conv_app_nth)
  have t': "take (Suc n) ds = take n ds @ [ds ! n]"
    using Suc.prems by (simp add: take_Suc_conv_app_nth)
  show ?case
    using Suc by (simp add: t gap_credits_snoc credit_def Let_def flip: t')
qed

lemma estimate_hours_eq:
  "estimate_hours clock cs = estimate_spec (sort (map (\<lambda>c. clock (flat_commit.date c)) cs))"
proof (cases "cs = []")
  case True
  then show ?thesis by (simp add: estimate_hours_def estimate_spec_def)
next
  case False
  define ds where "ds = sort (map (\<lambda>c. clock (flat_commit.date c)) cs)"
  have ne: "ds \<noteq> []" using False by (auto simp: ds_def dest: arg_cong[where f=length])
  then obtain n where n: "length ds = Suc n" by (cases ds) auto
  have "fold (\<lambda>i total. let diff = ds ! i - ds ! (i - 1)
                     in if diff < 7200 then total + diff else total + 3600)
        [1 ..< Suc n] 3600 = 3600 + gap_credits (take (Suc n) ds)"
    by (rule session_loop_gap_credits) (simp add: n)
  then show ?thesis using False ne n
    by (simp add: estimate_hours_def estimate_spec_def Let_def flip: ds_def)
qed

text \<open>
  C1. The estimate of no commits is 0, of one commit 1 hour, of two commits 30 minutes
  apart 1.5 hours, of two commits 5 hours apart 2 hours, of three commits at \<open>t\<close>,
  \<open>t + 1h\<close> and \<open>t + 1h50min\<close> it is \<open>1 + 1 + 5/6\<close> hours; and in general it is the
  specification's value on the ascending timeline of the commits' instants: one hour plus
  each consecutive gap when under two hours and a flat hour otherwise.
\<close>

theorem estimate_hours_reference:
  "estimate_hours clock [] = 0
   \<and> estimate_hours clock [x] = 1
   \<and> (clock (flat_commit.date y) = clock (flat_commit.date x) + 1800
        \<longrightarrow> estimate_hours clock [x, y] = 3 / 2)
   \<and> (clock (flat_commit.date y) = clock (flat_commit.date x) + 18000
        \<longrightarrow> estimate_hours clock [x, y] = 2)
   \<and> (clock (flat_commit.date y) = clock (flat_commit.date x) + 3600
        \<and> clock (flat_commit.date z) = clock (flat_commit.date x) + 6600
        \<longrightarrow> estimate_hours clock [x, y, z] = 1 + 1 + 5 / 6)
   \<and> estimate_hours clock cs
       = estimate_spec (sort (map (\<lambda>c. clock (flat_commit.date c)) cs))"
  by (simp add: estimate_hours_eq[symmetric])
     (simp add: estimate_hours_eq estimate_spec_def credit_def)

theorem estimate_hours_reference_witness:
  "sample_clock ''2024-01-01T10:30:00+00:00'' = sample_clock ''2024-01-01T10:00:00+00:00'' + 1800
   \<and> estimate_hours sample_clock
        [commit_at ''2024-01-01T10:00:00+00:00'', commit_at ''2024-01-01T10:30:00+00:00''] = 3 / 2
   \<and> sample_clock ''2024-01-01T15:00:00+00:00'' = sample_clock ''2024-01-01T10:00:00+00:00'' + 18000
   \<and> estimate_hours sample_clock
        [commit_at ''2024-01-01T10:00:00+00:00'', commit_at ''2024-01-01T15:00:00+00:00''] = 2
   \<and> sample_clock ''2024-01-01T11:00:00+00:00'' = sample_clock ''2024-01-01T10:00:00+00:00'' + 3600
   \<and> sample_clock ''2024-01-01T11:50:00+00:00'' = sample_clock ''2024-01-01T10:00:00+00:00'' + 6600
   \<and> estimate_hours sample_clock
        [commit_at ''2024-01-01T10:00:00+00:00'', commit_at ''2024-01-01T11:00:00+00:00'',
         commit_at ''2024-01-01T11:50:00+00:00''] = 17 / 6"
proof -
  have a: "sample_clock ''2024-01-01T10:00:00+00:00'' = 1704103200" by (simp add: sample_clock_def)
  have b: "sample_clock ''2024-01-01T10:30:00+00:00'' = 1704105000" by (simp add: sample_clock_def)
  have c: "sample_clock ''2024-01-01T11:00:00+00:00'' = 1704106800" by (simp add: sample_clock_def)
  have d: "sample_clock ''2024-01-01T11:50:00+00:00'' = 1704109800" by (simp add: sample_clock_def)
  have e: "sample_clock ''2024-01-01T15:00:00+00:00'' = 1704121200" by (simp add: sample_clock_def)
  have 1: "estimate_hours sample_clock
        [commit_at ''2024-01-01T10:00:00+00:00'', commit_at ''2024-01-01T10:30:00+00:00''] = 3 / 2"
    using estimate_hours_reference
      [where cs = "[]" and clock = sample_clock and x = "commit_at ''2024-01-01T10:00:00+00:00''"
         and y = "commit_at ''2024-01-01T10:30:00+00:00''"]
    by (simp add: a b commit_at_def)
  have 2: "estimate_hours sample_clock
        [commit_at ''2024-01-01T10:00:00+00:00'', commit_at ''2024-01-01T15:00:00+00:00''] = 2"
    using estimate_hours_reference
      [where cs = "[]" and clock = sample_clock and x = "commit_at ''2024-01-01T10:00:00+00:00''"
         and y = "commit_at ''2024-01-01T15:00:00+00:00''"]
    by (simp add: a e commit_at_def)
  have 3: "estimate_hours sample_clock
        [commit_at ''2024-01-01T10:00:00+00:00'', commit_at ''2024-01-01T11:00:00+00:00'',
         commit_at ''2024-01-01T11:50:00+00:00''] = 17 / 6"
    using estimate_hours_reference
      [where cs = "[]" and clock = sample_clock and x = "commit_at ''2024-01-01T10:00:00+00:00''"
         and y = "commit_at ''2024-01-01T11:00:00+00:00''"
         and z = "commit_at ''2024-01-01T11:50:00+00:00''"]
    by (simp add: a c d commit_at_def)
  show ?thesis using 1 2 3 by (simp add: a b c d e)
qed

lemma sort_instants_cong:
  "mset cs' = mset cs \<Longrightarrow> sort (instants clock cs') = sort (instants clock cs)"
proof -
  assume "mset cs' = mset cs"
  then have "mset (instants clock cs') = mset (instants clock cs)"
    by (metis mset_map)
  then have "mset (sort (instants clock cs)) = mset (instants clock cs')"
    by simp
  then show ?thesis
    by (rule properties_for_sort) simp
qed

text \<open>
  C9. The estimate does not depend on the order of the commits it is given: any
  reordering of the list has the same estimate, since the instants are sorted inside
  \<open>estimate_hours\<close>.
\<close>

theorem estimate_hours_permutation:
  "mset cs' = mset cs \<Longrightarrow> estimate_hours clock cs' = estimate_hours clock cs"
  using sort_instants_cong[of cs' cs clock] by (simp add: estimate_hours_eq)

theorem estimate_hours_permutation_witness:
  "mset [commit_at ''2024-01-01T10:30:00+00:00'', commit_at ''2024-01-01T10:00:00+00:00'']
     = mset [commit_at ''2024-01-01T10:00:00+00:00'', commit_at ''2024-01-01T10:30:00+00:00'']
   \<and> estimate_hours sample_clock
         [commit_at ''2024-01-01T10:30:00+00:00'', commit_at ''2024-01-01T10:00:00+00:00'']
       = estimate_hours sample_clock
         [commit_at ''2024-01-01T10:00:00+00:00'', commit_at ''2024-01-01T10:30:00+00:00'']"
proof -
  have m: "mset [commit_at ''2024-01-01T10:30:00+00:00'', commit_at ''2024-01-01T10:00:00+00:00'']
     = mset [commit_at ''2024-01-01T10:00:00+00:00'', commit_at ''2024-01-01T10:30:00+00:00'']"
    by (simp add: add_mset_commute)
  show ?thesis
    using m estimate_hours_permutation[OF m, of sample_clock] by simp
qed

lemma credit_nonneg: "0 \<le> g \<Longrightarrow> 0 \<le> credit g"
  by (simp add: credit_def)

lemma credit_subadd: "0 \<le> g \<Longrightarrow> 0 \<le> h \<Longrightarrow> credit (g + h) \<le> credit g + credit h"
  by (simp add: credit_def)

lemma gap_credits_insort:
  "sorted ts \<Longrightarrow> gap_credits ts \<le> gap_credits (insort t ts)"
proof (induction ts rule: gap_credits.induct)
  case (3 a b ts)
  have ab: "a \<le> b" using "3.prems" by simp
  show ?case
  proof (cases "t \<le> a")
    case True
    then show ?thesis using credit_nonneg[of "a - t"] by simp
  next
    case ta: False
    show ?thesis
    proof (cases "t \<le> b")
      case True
      then show ?thesis
        using ta credit_subadd[of "t - a" "b - t"] by simp
    next
      case False
      then show ?thesis using ta "3.IH" "3.prems" by simp
    qed
  qed
next
  case 1
  then show ?case by simp
next
  case (2 a)
  then show ?case using credit_nonneg[of "t - a"] credit_nonneg[of "a - t"] by simp
qed

lemma gap_credits_nonneg: "sorted ts \<Longrightarrow> 0 \<le> gap_credits ts"
  by (induction ts rule: gap_credits.induct) (auto simp: credit_nonneg)

lemma estimate_spec_insort:
  "sorted ts \<Longrightarrow> estimate_spec ts \<le> estimate_spec (insort t ts)"
proof -
  assume s: "sorted ts"
  have ne: "insort t ts \<noteq> []" by (cases ts) auto
  show ?thesis
  proof (cases "ts = []")
    case True
    then show ?thesis by (simp add: estimate_spec_def)
  next
    case False
    then show ?thesis
      using gap_credits_insort[OF s, of t] ne by (simp add: estimate_spec_def divide_right_mono)
  qed
qed

lemma sort_instants_insert:
  "sort (instants clock (xs @ c # ys))
   = insort (clock (flat_commit.date c)) (sort (instants clock (xs @ ys)))"
proof -
  have "mset (insort (clock (flat_commit.date c)) (sort (instants clock (xs @ ys))))
        = mset (instants clock (xs @ c # ys))"
    by simp
  then show ?thesis
    by (rule properties_for_sort) (simp add: sorted_insort)
qed

lemma gap_credits_shift: "gap_credits (map (\<lambda>t. t + d) ts) = gap_credits ts"
  by (induction ts rule: gap_credits.induct) auto

lemma gap_credits_append:
  "as \<noteq> [] \<Longrightarrow> bs \<noteq> [] \<Longrightarrow>
   gap_credits (as @ bs) = gap_credits as + credit (hd bs - last as) + gap_credits bs"
proof (induction as rule: gap_credits.induct)
  case 1
  then show ?case by simp
next
  case (2 a)
  then show ?case by (cases bs) auto
next
  case (3 a b ts)
  then show ?case by simp
qed

lemma sort_append_separated:
  fixes as bs :: "int list"
  assumes "\<forall>a\<in>set as. \<forall>b\<in>set bs. a \<le> b"
  shows "sort (as @ bs) = sort as @ sort bs"
proof -
  have "mset (sort as @ sort bs) = mset (as @ bs)" by simp
  then show ?thesis
    by (rule properties_for_sort) (use assms in \<open>auto simp: sorted_append\<close>)
qed

lemma sort_shift: "sort (map (\<lambda>t. t + d) ts) = map (\<lambda>t. t + (d::int)) (sort ts)"
proof -
  have "mset (map (\<lambda>t. t + d) (sort ts)) = mset (map (\<lambda>t. t + d) ts)"
    by simp
  then show ?thesis
    by (rule properties_for_sort) (simp add: sorted_map)
qed

lemma estimate_spec_gap_insensitive:
  fixes as bs :: "int list"
  assumes "\<forall>a\<in>set as. \<forall>b\<in>set bs. a + 7200 \<le> b"
      and "\<forall>a\<in>set as. \<forall>b\<in>set bs. a + 7200 \<le> b + d"
  shows "estimate_spec (sort (as @ map (\<lambda>t. t + d) bs)) = estimate_spec (sort (as @ bs))"
proof (cases "as = [] \<or> bs = []")
  case True
  then show ?thesis
    by (auto simp: estimate_spec_def sort_shift gap_credits_shift)
next
  case False
  have "length (sort as) = length as" "length (sort bs) = length bs"
    by simp_all
  with False have ne: "sort as \<noteq> []" "sort bs \<noteq> []"
    by fastforce+
  have "last (sort as) \<in> set (sort as)" using ne(1) by (rule last_in_set)
  then have la: "last (sort as) \<in> set as" by simp
  have "hd (sort bs) \<in> set (sort bs)" using ne(2) by (rule hd_in_set)
  then have hb: "hd (sort bs) \<in> set bs" by simp
  have "\<forall>a\<in>set as. \<forall>b\<in>set bs. a \<le> b"
    using assms(1) by fastforce
  then have 1: "sort (as @ bs) = sort as @ sort bs"
    by (rule sort_append_separated)
  have "\<forall>a\<in>set as. \<forall>b\<in>set (map (\<lambda>t. t + d) bs). a \<le> b"
    using assms(2) by fastforce
  then have "sort (as @ map (\<lambda>t. t + d) bs) = sort as @ sort (map (\<lambda>t. t + d) bs)"
    by (rule sort_append_separated)
  then have 2: "sort (as @ map (\<lambda>t. t + d) bs) = sort as @ map (\<lambda>t. t + d) (sort bs)"
    by (simp add: sort_shift)
  have "last (sort as) + 7200 \<le> hd (sort bs)"
    using assms(1) la hb by blast
  then have g1: "credit (hd (sort bs) - last (sort as)) = 3600"
    by (simp add: credit_def)
  have "last (sort as) + 7200 \<le> hd (sort bs) + d"
    using assms(2) la hb by blast
  then have g2: "credit (hd (map (\<lambda>t. t + d) (sort bs)) - last (sort as)) = 3600"
    using ne(2) by (simp add: credit_def hd_map)
  show ?thesis
    using ne g1 g2 by (simp add: 1 2 estimate_spec_def gap_credits_append gap_credits_shift)
qed

text \<open>
  C7. Adding one more commit anywhere in the list never lowers the estimate. And when the
  commits split into an earlier part and a later part with every gap between the two of
  at least two hours, moving the later part as a whole by \<open>d\<close> seconds, to another gap
  of at least two hours, leaves the estimate as it was.
\<close>

theorem estimate_hours_monotone_and_gap_insensitive:
  "estimate_hours clock (xs @ ys) \<le> estimate_hours clock (xs @ c # ys)
   \<and> ((\<forall>a\<in>set xs. \<forall>b\<in>set ys.
          clock (flat_commit.date a) + 7200 \<le> clock (flat_commit.date b))
      \<and> (\<forall>a\<in>set xs. \<forall>b\<in>set ys'.
          clock (flat_commit.date a) + 7200 \<le> clock (flat_commit.date b))
      \<and> instants clock ys' = map (\<lambda>t. t + d) (instants clock ys)
      \<longrightarrow> estimate_hours clock (xs @ ys') = estimate_hours clock (xs @ ys))"
proof (intro conjI impI)
  show "estimate_hours clock (xs @ ys) \<le> estimate_hours clock (xs @ c # ys)"
    unfolding estimate_hours_eq sort_instants_insert
    by (rule estimate_spec_insort) simp
next
  assume h: "(\<forall>a\<in>set xs. \<forall>b\<in>set ys.
          clock (flat_commit.date a) + 7200 \<le> clock (flat_commit.date b))
      \<and> (\<forall>a\<in>set xs. \<forall>b\<in>set ys'.
          clock (flat_commit.date a) + 7200 \<le> clock (flat_commit.date b))
      \<and> instants clock ys' = map (\<lambda>t. t + d) (instants clock ys)"
  have a1: "\<forall>a\<in>set (instants clock xs). \<forall>b\<in>set (instants clock ys). a + 7200 \<le> b"
    using h by auto
  have a2: "\<forall>a\<in>set (instants clock xs). \<forall>b\<in>set (instants clock ys). a + 7200 \<le> b + d"
  proof (intro ballI)
    fix a b
    assume a: "a \<in> set (instants clock xs)" and b: "b \<in> set (instants clock ys)"
    from b have "b + d \<in> set (map (\<lambda>t. t + d) (instants clock ys))"
      by auto
    with h have "b + d \<in> set (instants clock ys')"
      by simp
    then obtain y where "y \<in> set ys'" "clock (flat_commit.date y) = b + d"
      by auto
    moreover from a obtain x where "x \<in> set xs" "clock (flat_commit.date x) = a"
      by auto
    ultimately show "a + 7200 \<le> b + d"
      using h by metis
  qed
  show "estimate_hours clock (xs @ ys') = estimate_hours clock (xs @ ys)"
    using estimate_spec_gap_insensitive[OF a1 a2] h
    by (simp add: estimate_hours_eq)
qed

theorem estimate_hours_monotone_and_gap_insensitive_witness:
  "sample_clock ''2024-01-01T10:00:00+00:00'' + 7200 \<le> sample_clock ''2024-01-01T15:00:00+00:00''
   \<and> sample_clock ''2024-01-01T10:30:00+00:00'' + 7200 \<le> sample_clock ''2024-01-01T15:00:00+00:00''
   \<and> sample_clock ''2024-01-01T20:00:00+00:00'' = sample_clock ''2024-01-01T15:00:00+00:00'' + 18000
   \<and> estimate_hours sample_clock
         [commit_at ''2024-01-01T10:00:00+00:00'', commit_at ''2024-01-01T10:30:00+00:00'',
          commit_at ''2024-01-01T20:00:00+00:00'']
       = estimate_hours sample_clock
         [commit_at ''2024-01-01T10:00:00+00:00'', commit_at ''2024-01-01T10:30:00+00:00'',
          commit_at ''2024-01-01T15:00:00+00:00'']
   \<and> estimate_hours sample_clock
         [commit_at ''2024-01-01T10:00:00+00:00'', commit_at ''2024-01-01T10:30:00+00:00'',
          commit_at ''2024-01-01T15:00:00+00:00'']
       \<le> estimate_hours sample_clock
         [commit_at ''2024-01-01T10:00:00+00:00'', commit_at ''2024-01-01T10:30:00+00:00'',
          commit_at ''2024-01-01T11:00:00+00:00'', commit_at ''2024-01-01T15:00:00+00:00'']"
proof -
  have a: "sample_clock ''2024-01-01T10:00:00+00:00'' = 1704103200" by (simp add: sample_clock_def)
  have b: "sample_clock ''2024-01-01T10:30:00+00:00'' = 1704105000" by (simp add: sample_clock_def)
  have e: "sample_clock ''2024-01-01T15:00:00+00:00'' = 1704121200" by (simp add: sample_clock_def)
  have f: "sample_clock ''2024-01-01T20:00:00+00:00'' = 1704139200" by (simp add: sample_clock_def)
  show ?thesis
    using estimate_hours_monotone_and_gap_insensitive
      [where clock = sample_clock
         and xs = "[commit_at ''2024-01-01T10:00:00+00:00'', commit_at ''2024-01-01T10:30:00+00:00'']"
         and ys = "[commit_at ''2024-01-01T15:00:00+00:00'']"
         and ys' = "[commit_at ''2024-01-01T20:00:00+00:00'']"
         and c = "commit_at ''2024-01-01T11:00:00+00:00''"
         and d = 18000]
    by (simp add: a b e f commit_at_def)
qed

section \<open>Paths and extensions\<close>

lemma length_takeWhile_lt:
  "x \<in> set xs \<Longrightarrow> \<not> P x \<Longrightarrow> length (takeWhile P xs) < length xs"
  by (induction xs) auto

lemma rfind_ge: "- 1 \<le> rfind p c"
proof (cases "c \<in> set p")
  case True
  then have "length (takeWhile (\<lambda>x. x \<noteq> c) (rev p)) < length (rev p)"
    by (intro length_takeWhile_lt[where x = c]) simp_all
  then show ?thesis using True by (simp add: rfind_def)
next
  case False
  then show ?thesis by (simp add: rfind_def)
qed

lemma rfind_nth:
  assumes "c \<in> set p"
  shows "0 \<le> rfind p c \<and> nat (rfind p c) < length p \<and> p ! nat (rfind p c) = c
         \<and> c \<notin> set (drop (Suc (nat (rfind p c))) p)"
proof -
  define k where "k = length (takeWhile (\<lambda>x. x \<noteq> c) (rev p))"
  have kl: "k < length p"
    unfolding k_def using assms length_takeWhile_lt[of c "rev p" "\<lambda>x. x \<noteq> c"]
    by simp
  have r: "rfind p c = int (length p) - 1 - int k"
    using assms by (simp add: rfind_def k_def)
  then have n: "nat (rfind p c) = length p - 1 - k" using kl by simp
  have "rev p ! k = c"
    unfolding k_def using assms
    by (metis (mono_tags, lifting) kl k_def length_rev nth_length_takeWhile)
  then have 1: "p ! (length p - 1 - k) = c"
    using kl by (simp add: rev_nth)
  have "Suc (length p - 1 - k) = length p - k"
    using kl by simp
  then have "drop (Suc (length p - 1 - k)) p = rev (take k (rev p))"
    by (simp add: take_rev)
  also have "take k (rev p) = takeWhile (\<lambda>x. x \<noteq> c) (rev p)"
    unfolding k_def by (rule takeWhile_eq_take[symmetric])
  finally have "c \<notin> set (drop (Suc (length p - 1 - k)) p)"
    by (auto dest: set_takeWhileD)
  then show ?thesis using kl 1 r n by simp
qed

lemma rfind_absent: "c \<notin> set p \<Longrightarrow> rfind p c = - 1"
  by (simp add: rfind_def)

lemma splitext_ext_shape:
  "snd (splitext p) = [] \<or>
   (\<exists>e. snd (splitext p) = CHR ''.'' # e \<and> CHR ''.'' \<notin> set e)"
proof (cases "CHR ''.'' \<in> set p")
  case False
  then show ?thesis
    using rfind_ge[of p "CHR ''/''"] by (simp add: splitext_def rfind_absent Let_def)
next
  case True
  let ?i = "nat (rfind p CHR ''.'')"
  from rfind_nth[OF True]
  have i: "?i < length p" "p ! ?i = CHR ''.''" "CHR ''.'' \<notin> set (drop (Suc ?i) p)"
    by simp_all
  have "drop ?i p = CHR ''.'' # drop (Suc ?i) p"
    using i by (metis Cons_nth_drop_Suc)
  then show ?thesis
    using i(3) by (auto simp: splitext_def Let_def)
qed

lemma lower_Cons_dot: "lower (CHR ''.'' # e) = CHR ''.'' # lower e"
  by (simp add: lower_def lower_char_def)

lemma lower_char_not_dot: "c \<noteq> CHR ''.'' \<Longrightarrow> lower_char c \<noteq> CHR ''.''"
  by (auto simp: lower_char_def split: option.splits if_splits)

lemma no_extension_not_in_table: "map_of EXTENSIONS [] = None"
  by (simp add: EXTENSIONS_def)


lemmas py_eval =
  parse_git_log_def startswith_def save_commit_def is_me_def strip_def isspace_def
  lower_def lower_char_def numstat_line_def basename_def rfind_def splitext_def
  skip_leading_dots.simps py_int_def decimal_def digit_val_def isdigit_def
  IGNORE_EXTENSIONS_def IGNORE_EXACT_FILES_def Let_def numstat_def eval_nat_numeral

lemma lower_ext_shape:
  "lower (snd (splitext p)) = [] \<or>
   (\<exists>e. lower (snd (splitext p)) = CHR ''.'' # e \<and> CHR ''.'' \<notin> set e)"
proof -
  consider "snd (splitext p) = []"
    | e where "snd (splitext p) = CHR ''.'' # e" "CHR ''.'' \<notin> set e"
    using splitext_ext_shape by blast
  then show ?thesis
  proof cases
    case 1
    then show ?thesis by (simp add: lower_def)
  next
    case 2
    have "CHR ''.'' \<notin> set (lower e)"
    proof
      assume "CHR ''.'' \<in> set (lower e)"
      then obtain x where x: "x \<in> set e" "lower_char x = CHR ''.''"
        unfolding lower_def by (metis (no_types, lifting) image_iff set_map)
      then have "x \<noteq> CHR ''.''" using 2(2) by blast
      then show False using x(2) lower_char_not_dot by blast
    qed
    then show ?thesis using 2(1) by (simp add: lower_Cons_dot)
  qed
qed

lemma languages_step_no_ext:
  "snd (splitext file) = [] \<Longrightarrow>
   (let ext = lower (snd (splitext file))
    in (case map_of EXTENSIONS ext of
          Some lang \<Rightarrow> incr lang 1 ls
        | None \<Rightarrow> ls)) = ls"
  by (simp add: lower_def no_extension_not_in_table)

lemma fold_languages_filter:
  "fold (\<lambda>file ls.
             let ext = lower (snd (splitext file))
             in (case map_of EXTENSIONS ext of
                   Some lang \<Rightarrow> incr lang 1 ls
                 | None \<Rightarrow> ls))
        (filter (\<lambda>f. snd (splitext f) \<noteq> []) paths) acc
   = fold (\<lambda>file ls.
             let ext = lower (snd (splitext file))
             in (case map_of EXTENSIONS ext of
                   Some lang \<Rightarrow> incr lang 1 ls
                 | None \<Rightarrow> ls))
        paths acc"
proof (induction paths arbitrary: acc)
  case Nil
  then show ?case by simp
next
  case (Cons f paths)
  show ?case
  proof (cases "snd (splitext f) = []")
    case True
    then show ?thesis using Cons.IH languages_step_no_ext[OF True] by simp
  next
    case False
    then show ?thesis using Cons.IH by simp
  qed
qed

lemma docker_keys:
  "map_of EXTENSIONS e = Some ''Docker'' \<longleftrightarrow> e = ''.dockerfile'' \<or> e = ''dockerfile''"
  by (simp add: EXTENSIONS_def)

text \<open>
  C10. No file's extracted extension, lower-cased, is the key \<open>"dockerfile"\<close>: an
  extension is empty or starts with a dot. So the language Docker is reached through the
  key \<open>".dockerfile"\<close> only; the extension of \<open>Dockerfile\<close> is empty and the file
  is not counted; and files without an extension never change the snapshot.
\<close>

theorem dockerfile_key_unreachable:
  "lower (snd (splitext path)) \<noteq> ''dockerfile''
   \<and> (map_of EXTENSIONS (lower (snd (splitext path))) = Some ''Docker''
        \<longleftrightarrow> lower (snd (splitext path)) = ''.dockerfile'')
   \<and> splitext ''Dockerfile'' = (''Dockerfile'', [])
   \<and> get_current_languages [''Dockerfile''] = []
   \<and> get_current_languages (filter (\<lambda>f. snd (splitext f) \<noteq> []) paths)
       = get_current_languages paths"
proof -
  have 1: "lower (snd (splitext path)) \<noteq> ''dockerfile''"
    using lower_ext_shape[of path] by auto
  have 3: "splitext ''Dockerfile'' = (''Dockerfile'', [])"
    by (simp add: splitext_def rfind_def)
  have 4: "get_current_languages [''Dockerfile''] = []"
    by (simp add: get_current_languages_def 3 lower_def no_extension_not_in_table)
  have 5: "get_current_languages (filter (\<lambda>f. snd (splitext f) \<noteq> []) paths)
       = get_current_languages paths"
    unfolding get_current_languages_def by (rule fold_languages_filter)
  show ?thesis
    using 1 3 4 5 by (simp add: docker_keys)
qed

section \<open>Identity matching\<close>

lemma contains_self: "contains a a"
  by (cases a) auto

lemma take_eq_iff_prefix: "take (length a) b = a \<longleftrightarrow> (\<exists>s. b = a @ s)"
  by (metis append_eq_conv_conj append_take_drop_id)

lemma contains_iff: "contains a b \<longleftrightarrow> (\<exists>p s. b = p @ a @ s)"
proof (induction b)
  case Nil
  then show ?case by auto
next
  case (Cons c cs)
  show ?case
  proof
    assume "contains a (c # cs)"
    then consider "take (length a) (c # cs) = a" | "contains a cs" by auto
    then show "\<exists>p s. c # cs = p @ a @ s"
    proof cases
      case 1
      then obtain s where "c # cs = a @ s" using take_eq_iff_prefix by blast
      then have "c # cs = [] @ a @ s" by simp
      then show ?thesis by blast
    next
      case 2
      then obtain p s where "cs = p @ a @ s" using Cons.IH by blast
      then have "c # cs = (c # p) @ a @ s" by simp
      then show ?thesis by blast
    qed
  next
    assume "\<exists>p s. c # cs = p @ a @ s"
    then obtain p s where ps: "c # cs = p @ a @ s" by blast
    show "contains a (c # cs)"
    proof (cases p)
      case Nil
      then have "take (length a) (c # cs) = a" using ps take_eq_iff_prefix by auto
      then show ?thesis by simp
    next
      case (Cons x p')
      then have "cs = p' @ a @ s" using ps by simp
      then have "contains a cs" using Cons.IH by blast
      then show ?thesis by simp
    qed
  qed
qed

text \<open>What \<open>is_me\<close> computes, for any configuration: every comparison is exact.\<close>

lemma is_me_iff:
  "is_me E N nm em \<longleftrightarrow> em \<in> E \<or> nm \<in> N \<or> (\<exists>e\<in>E. contains e em)"
  using contains_self by (auto simp: is_me_def)

text \<open>The specification's three examples, with the target emails \<open>{"a@x.com"}\<close>.\<close>

lemma is_me_examples:
  "is_me {''a@x.com''} {} ''A'' ''a@x.com''
   \<and> \<not> is_me {''a@x.com''} {} ''B'' ''b@y.com''
   \<and> is_me {''a@x.com''} {} ''B'' ''a@x.com.test''"
  by (simp add: is_me_def)

text \<open>
  C4, at an input where the code departs from it: the operator configures the email
  \<open>Me@X.com\<close> and a commit is authored with that same email. The parser lower-cases
  the author's email to \<open>me@x.com\<close>; the configured email is compared as it is
  written, so the two are neither equal nor is one contained in the other, \<open>is_me\<close>
  is false and the commit is dropped, although the emails are equal under
  case-insensitive comparison.
\<close>

theorem configured_email_case_drops_commit:
  "lower ''Me@X.com'' = ''me@x.com''
   \<and> matches_spec {''Me@X.com''} {} ''Me'' ''me@x.com''
   \<and> \<not> is_me {''Me@X.com''} {} ''Me'' ''me@x.com''
   \<and> parse_git_log {''Me@X.com''} {}
        [''HEADER|c1|2024-01-01T10:00:00+00:00|Me|Me@X.com'', [],
         numstat ''3'' ''1'' ''README.md''] = []"
  by (simp add: matches_spec_def py_eval)

section \<open>Numstat lines\<close>

text \<open>
  The entries \<open>.min.js\<close> and \<open>.min.css\<close> of the ignore-set are never met: an
  extracted extension holds one dot.
\<close>

lemma lower_ext_single_dot:
  "lower (snd (splitext p)) \<noteq> ''.min.js'' \<and> lower (snd (splitext p)) \<noteq> ''.min.css''"
  using lower_ext_shape[of p] by auto

text \<open>
  C3, at an input where the code departs from it: the extension of
  \<open>dist/app.min.js\<close> is \<open>.js\<close>, which is not in the ignore-set, so the line of a
  minified asset adds its 120 and 4 lines and one touched file to the commit.
\<close>

theorem minified_asset_is_counted:
  "splitext ''dist/app.min.js'' = (''dist/app.min'', ''.js'')
   \<and> ''.js'' \<notin> IGNORE_EXTENSIONS
   \<and> parse_git_log {''me@x.com''} {}
        [''HEADER|c1|2024-01-01T10:00:00+00:00|Me|me@x.com'', [],
         numstat ''120'' ''4'' ''dist/app.min.js'']
      = [\<lparr>hash = ''c1'', date = ''2024-01-01T10:00:00+00:00'', name = ''Me'',
           email = ''me@x.com'', additions = 120, deletions = 4, files = 1\<rparr>]"
  by (simp add: py_eval)

text \<open>
  C6, at an input where the code departs from it: in the line \<open>10 abc src/main.py\<close>
  the deleted field is unparsable, and the 10 added lines have been added to the commit
  before \<open>int\<close> raises; deletions and the file count stay. Parsing goes on with the
  next line.
\<close>

theorem malformed_deleted_field_keeps_additions:
  "parse_git_log {''me@x.com''} {}
     [''HEADER|c1|2024-01-01T10:00:00+00:00|Me|me@x.com'', [],
      numstat ''10'' ''abc'' ''src/main.py'']
   = [\<lparr>hash = ''c1'', date = ''2024-01-01T10:00:00+00:00'', name = ''Me'',
        email = ''me@x.com'', additions = 10, deletions = 0, files = 0\<rparr>]
   \<and> parse_git_log {''me@x.com''} {}
     [''HEADER|c1|2024-01-01T10:00:00+00:00|Me|me@x.com'', [],
      numstat ''10'' ''abc'' ''src/main.py'', numstat ''3'' ''1'' ''README.md'']
   = [\<lparr>hash = ''c1'', date = ''2024-01-01T10:00:00+00:00'', name = ''Me'',
        email = ''me@x.com'', additions = 13, deletions = 1, files = 1\<rparr>]"
  by (simp add: py_eval)

text \<open>What one numstat line does in the cases the claims C3 and C6 speak of.\<close>

lemma numstat_line_ignored_extension:
  "length (split_ws 2 line) \<ge> 3 \<Longrightarrow>
   lower (snd (splitext (strip (split_ws 2 line ! 2)))) \<in> IGNORE_EXTENSIONS \<Longrightarrow>
   numstat_line c line = c"
  by (simp add: numstat_line_def Let_def)

lemma numstat_line_ignored_basename:
  "length (split_ws 2 line) \<ge> 3 \<Longrightarrow>
   basename (strip (split_ws 2 line ! 2)) \<in> IGNORE_EXACT_FILES \<Longrightarrow>
   numstat_line c line = c"
  by (simp add: numstat_line_def Let_def)

lemma numstat_line_unparsable_added:
  "length (split_ws 2 line) \<ge> 3 \<Longrightarrow>
   split_ws 2 line ! 0 \<noteq> ''-'' \<Longrightarrow> py_int (split_ws 2 line ! 0) = None \<Longrightarrow>
   numstat_line c line = c"
  by (simp add: numstat_line_def Let_def)

lemma numstat_line_unparsable_deleted:
  "length (split_ws 2 line) \<ge> 3 \<Longrightarrow>
   basename (strip (split_ws 2 line ! 2)) \<notin> IGNORE_EXACT_FILES \<Longrightarrow>
   lower (snd (splitext (strip (split_ws 2 line ! 2)))) \<notin> IGNORE_EXTENSIONS \<Longrightarrow>
   split_ws 2 line ! 0 \<noteq> ''-'' \<Longrightarrow> py_int (split_ws 2 line ! 0) = Some n \<Longrightarrow>
   split_ws 2 line ! 1 \<noteq> ''-'' \<Longrightarrow> py_int (split_ws 2 line ! 1) = None \<Longrightarrow>
   numstat_line c line = c\<lparr>commit.additions := commit.additions c + n\<rparr>"
  by (simp add: numstat_line_def Let_def)

section \<open>The pipeline\<close>

lemma append_flat_commits:
  "fold (\<lambda>c all_commits. all_commits @ [flat_commit_of r c]) cs acc
   = acc @ map (flat_commit_of r) cs"
  by (induction cs arbitrary: acc) auto

lemma main_repo_commits:
  "fst (main_repo E N gl lf p (ac, lc, rt))
   = ac @ map (flat_commit_of (basename p)) (parse_git_log E N (gl p))"
  by (simp add: main_repo_def Let_def append_flat_commits)

lemma main_loop_commits:
  "fst (fold (main_repo E N gl lf) ps acc)
   = fst acc @ concat (map (\<lambda>p. map (flat_commit_of (basename p)) (parse_git_log E N (gl p))) ps)"
proof (induction ps arbitrary: acc)
  case Nil
  then show ?case by simp
next
  case (Cons p ps)
  obtain ac lc rt where acc: "acc = (ac, lc, rt)" by (cases acc) auto
  show ?case
    using Cons.IH[of "main_repo E N gl lf p acc"]
    by (simp add: acc main_repo_commits)
qed

lemma main_detailed_commits:
  "detailed_commits (main E N clock gl lf ps)
   = concat (map (\<lambda>p. map (flat_commit_of (basename p)) (parse_git_log E N (gl p))) ps)"
proof -
  have "detailed_commits (main E N clock gl lf ps) = fst (fold (main_repo E N gl lf) ps ([], [], []))"
    by (simp add: main_def split: prod.splits)
  then show ?thesis by (simp add: main_loop_commits)
qed

lemma main_total_hours:
  "total_hours_estimated (main E N clock gl lf ps)
   = estimate_hours clock (detailed_commits (main E N clock gl lf ps))"
  by (simp add: main_def split: prod.splits)

lemma flat_commit_of_simps:
  "flat_commit.date (flat_commit_of r c) = commit.date c"
  "repo (flat_commit_of r c) = r"
  "flat_commit.additions (flat_commit_of r c) = commit.additions c"
  "flat_commit.deletions (flat_commit_of r c) = commit.deletions c"
  "impact (flat_commit_of r c) = commit.additions c + commit.deletions c"
  by (simp_all add: flat_commit_of_def)

lemma instants_detailed_commits:
  "instants clock (detailed_commits (main E N clock gl lf ps))
   = map clock (concat (map (\<lambda>p. map commit.date (parse_git_log E N (gl p))) ps))"
  by (simp add: main_detailed_commits map_concat comp_def flat_commit_of_simps)


lemma sample_web:
  "parse_git_log {''me@x.com''} {} (sample_git_log ''/home/me/Development/web'')
   = [\<lparr>hash = ''w1'', date = ''2024-01-01T10:00:00+00:00'', name = ''Me'',
        email = ''me@x.com'', additions = 3, deletions = 1, files = 1\<rparr>]"
  by (simp add: sample_git_log_def py_eval)

lemma sample_api:
  "parse_git_log {''me@x.com''} {} (sample_git_log ''/home/me/Development/api'')
   = [\<lparr>hash = ''p1'', date = ''2024-01-01T10:30:00+00:00'', name = ''Me'',
        email = ''me@x.com'', additions = 5, deletions = 0, files = 1\<rparr>]"
  by (simp add: sample_git_log_def py_eval)

lemma sample_tools:
  "parse_git_log {''me@x.com''} {} (sample_git_log ''/home/me/Development/tools'')
   = [\<lparr>hash = ''t2'', date = ''2024-01-01T12:00:00+00:00'', name = ''Me'',
        email = ''me@x.com'', additions = 10, deletions = 2, files = 2\<rparr>,
      \<lparr>hash = ''t1'', date = ''2024-01-01T10:00:00+00:00'', name = ''Me'',
        email = ''me@x.com'', additions = 3, deletions = 1, files = 1\<rparr>]"
  by (simp add: sample_git_log_def py_eval)

lemma sample_basenames:
  "basename ''/home/me/Development/web'' = ''web''"
  "basename ''/home/me/Development/api'' = ''api''"
  "basename ''/home/me/Development/tools'' = ''tools''"
  by (simp_all add: basename_def rfind_def)

lemma sample_clock_values:
  "sample_clock ''2024-01-01T10:00:00+00:00'' = 1704103200"
  "sample_clock ''2024-01-01T10:30:00+00:00'' = 1704105000"
  "sample_clock ''2024-01-01T12:00:00+00:00'' = 1704110400"
  by (simp_all add: sample_clock_def)

text \<open>
  C2. \<open>total_hours_estimated\<close> is the specification's estimate on the ascending
  timeline of the instants of all commits that \<open>parse_git_log\<close> kept (the matched
  ones), over every repository together. With one matched commit in \<open>web\<close> at 10:00 and
  one in \<open>api\<close> at 10:30 the total is 1.5 hours, where the two repositories taken alone
  give 1 hour each.
\<close>

theorem total_hours_over_merged_timeline:
  "total_hours_estimated (main E N clock gl lf ps)
     = estimate_spec
         (sort (map clock (concat (map (\<lambda>p. map commit.date (parse_git_log E N (gl p))) ps))))
   \<and> map flat_commit.date
         (detailed_commits
            (main {''me@x.com''} {} sample_clock sample_git_log sample_ls_files
               [''/home/me/Development/web'', ''/home/me/Development/api'']))
       = [''2024-01-01T10:00:00+00:00'', ''2024-01-01T10:30:00+00:00'']
   \<and> total_hours_estimated
         (main {''me@x.com''} {} sample_clock sample_git_log sample_ls_files
            [''/home/me/Development/web'', ''/home/me/Development/api'']) = 3 / 2
   \<and> total_hours_estimated
         (main {''me@x.com''} {} sample_clock sample_git_log sample_ls_files
            [''/home/me/Development/web''])
       + total_hours_estimated
           (main {''me@x.com''} {} sample_clock sample_git_log sample_ls_files
              [''/home/me/Development/api'']) = 2"
proof -
  have g: "total_hours_estimated (main E N clock gl lf ps)
     = estimate_spec
         (sort (map clock (concat (map (\<lambda>p. map commit.date (parse_git_log E N (gl p))) ps))))"
    for E N clock gl lf ps
    by (simp add: main_total_hours estimate_hours_eq instants_detailed_commits)
  have d: "map flat_commit.date
         (detailed_commits
            (main {''me@x.com''} {} sample_clock sample_git_log sample_ls_files
               [''/home/me/Development/web'', ''/home/me/Development/api'']))
       = [''2024-01-01T10:00:00+00:00'', ''2024-01-01T10:30:00+00:00'']"
    by (simp add: main_detailed_commits sample_web sample_api flat_commit_of_simps)
  have m: "total_hours_estimated
         (main {''me@x.com''} {} sample_clock sample_git_log sample_ls_files
            [''/home/me/Development/web'', ''/home/me/Development/api'']) = 3 / 2"
    by (simp add: g sample_web sample_api sample_clock_values estimate_spec_def credit_def)
  have w: "total_hours_estimated
         (main {''me@x.com''} {} sample_clock sample_git_log sample_ls_files
            [''/home/me/Development/web'']) = 1"
    by (simp add: g sample_web estimate_spec_def)
  have a: "total_hours_estimated
           (main {''me@x.com''} {} sample_clock sample_git_log sample_ls_files
              [''/home/me/Development/api'']) = 1"
    by (simp add: g sample_api estimate_spec_def)
  show ?thesis using g[of E N clock gl lf ps] d m w a by simp
qed

lemma mset_instants_sort_key:
  "mset (sort_key (\<lambda>c. clock (flat_commit.date c)) cs) = mset cs"
  by simp

text \<open>
  C5, as amended. \<open>main\<close> does not reorder the global commit sequence:
  \<open>detailed_commits\<close> lists the matched commits repository by repository, in the order
  of the repository list, and within a repository in the order \<open>parse_git_log\<close> returned
  them. The ascending sort is made inside \<open>estimate_hours\<close> only:
  \<open>total_hours_estimated\<close> is the estimate of the sequence sorted by instant.
\<close>

theorem detailed_commits_in_extraction_order:
  "detailed_commits (main E N clock gl lf ps)
     = concat (map (\<lambda>p. map (flat_commit_of (basename p)) (parse_git_log E N (gl p))) ps)
   \<and> total_hours_estimated (main E N clock gl lf ps)
     = estimate_hours clock
         (sort_key (\<lambda>c. clock (flat_commit.date c)) (detailed_commits (main E N clock gl lf ps)))"
proof -
  have "sort (instants clock
           (sort_key (\<lambda>c. clock (flat_commit.date c)) (detailed_commits (main E N clock gl lf ps))))
        = sort (instants clock (detailed_commits (main E N clock gl lf ps)))"
    by (rule sort_instants_cong) simp
  then have "total_hours_estimated (main E N clock gl lf ps)
     = estimate_hours clock
         (sort_key (\<lambda>c. clock (flat_commit.date c)) (detailed_commits (main E N clock gl lf ps)))"
    by (simp add: main_total_hours estimate_hours_eq)
  then show ?thesis
    using main_detailed_commits[of E N clock gl lf ps] by simp
qed

text \<open>
  C5 as stated fails: for the repository \<open>tools\<close>, whose log prints the commit of 12:00
  before the commit of 10:00, \<open>detailed_commits\<close> keeps that order.
\<close>

theorem detailed_commits_unsorted_counterexample:
  "map flat_commit.date
     (detailed_commits
        (main {''me@x.com''} {} sample_clock sample_git_log sample_ls_files
           [''/home/me/Development/tools'']))
   = [''2024-01-01T12:00:00+00:00'', ''2024-01-01T10:00:00+00:00'']
   \<and> \<not> sorted (instants sample_clock
        (detailed_commits
           (main {''me@x.com''} {} sample_clock sample_git_log sample_ls_files
              [''/home/me/Development/tools''])))"
  by (simp add: main_detailed_commits sample_tools flat_commit_of_simps sample_clock_values)

section \<open>Counts of the emitted commits\<close>

lemma isdigit_not_isspace: "isdigit c \<Longrightarrow> \<not> isspace c"
  by (auto simp: isdigit_def isspace_def)

lemma strip_digits:
  assumes "list_all isdigit f"
  shows "strip f = f"
proof (cases "f = []")
  case True
  then show ?thesis by (simp add: strip_def)
next
  case False
  have "\<not> isspace (hd f)"
    using assms False isdigit_not_isspace by (cases f) auto
  then have 1: "dropWhile isspace f = f"
    using False by (cases f) auto
  have "last f \<in> set f" using False by simp
  then have "\<not> isspace (last f)"
    using assms isdigit_not_isspace by (auto simp: list_all_iff)
  then have "\<not> isspace (hd (rev f))"
    using False by (simp add: hd_rev)
  then have 2: "dropWhile isspace (rev f) = rev f"
    using False by (cases "rev f") auto
  show ?thesis by (simp add: strip_def 1 2)
qed

lemma digit_val_nonneg: "0 \<le> digit_val c"
  by (simp add: digit_val_def)

lemma decimal_loop_nonneg: "0 \<le> n \<Longrightarrow> 0 \<le> foldl (\<lambda>n c. 10 * n + digit_val c) n ds"
proof (induction ds arbitrary: n)
  case Nil
  then show ?case by simp
next
  case (Cons d ds)
  have "0 \<le> 10 * n + digit_val d"
    using Cons.prems digit_val_nonneg[of d] by simp
  then show ?case using Cons.IH by simp
qed

lemma decimal_nonneg: "0 \<le> decimal ds"
  by (simp add: decimal_def decimal_loop_nonneg)

lemma py_int_unsigned_nonneg:
  assumes "f \<noteq> []" "list_all isdigit f" "py_int f = Some n"
  shows "0 \<le> n"
proof -
  obtain c r where f: "f = c # r" using assms(1) by (cases f) auto
  have "isdigit c" using assms(2) f by simp
  then have c: "c \<noteq> CHR ''-''" "c \<noteq> CHR ''+''"
    by (auto simp: isdigit_def)
  have s: "strip (c # r) = c # r"
    using strip_digits[OF assms(2)] f by simp
  have "py_int f = (if digits_ok f
                    then Some (decimal (filter (\<lambda>c. c \<noteq> CHR ''_'') f)) else None)"
    using c by (simp add: py_int_def f s)
  then show ?thesis
    using assms(3) decimal_nonneg by (auto split: if_splits)
qed

lemma count_field_nonneg:
  assumes "field = ''-'' \<or> (field \<noteq> [] \<and> list_all isdigit field)"
      and "field \<noteq> ''-''" and "py_int field = Some n"
  shows "0 \<le> n"
  using assms py_int_unsigned_nonneg by blast

lemma numstat_line_nonneg:
  assumes "git_numstat_counts line" "counts_nonneg c"
  shows "counts_nonneg (numstat_line c line)"
proof (cases "length (split_ws 2 line) \<ge> 3")
  case False
  then show ?thesis using assms(2) by (simp add: numstat_line_def)
next
  case True
  let ?parts = "split_ws 2 line"
  have q: "\<forall>field \<in> set (take 2 ?parts).
             field = ''-'' \<or> (field \<noteq> [] \<and> list_all isdigit field)"
    using assms(1) by (simp add: git_numstat_counts_def list_all_iff)
  have "?parts ! 0 \<in> set (take 2 ?parts)" "?parts ! 1 \<in> set (take 2 ?parts)"
    using True by (auto simp: in_set_conv_nth intro: exI[of _ 0] exI[of _ 1])
  then have a: "?parts ! 0 = ''-'' \<or> (?parts ! 0 \<noteq> [] \<and> list_all isdigit (?parts ! 0))"
    and d: "?parts ! 1 = ''-'' \<or> (?parts ! 1 \<noteq> [] \<and> list_all isdigit (?parts ! 1))"
    using q by blast+
  have na: "\<And>n. ?parts ! 0 \<noteq> ''-'' \<Longrightarrow> py_int (?parts ! 0) = Some n \<Longrightarrow> 0 \<le> n"
    using a count_field_nonneg by blast
  have nd: "\<And>n. ?parts ! 1 \<noteq> ''-'' \<Longrightarrow> py_int (?parts ! 1) = Some n \<Longrightarrow> 0 \<le> n"
    using d count_field_nonneg by blast
  show ?thesis
    using True assms(2) na nd
    by (auto simp: numstat_line_def Let_def counts_nonneg_def split: option.splits)
qed

lemma save_commit_nonneg:
  "list_all counts_nonneg commits \<Longrightarrow> (\<And>c. current = Some c \<Longrightarrow> counts_nonneg c) \<Longrightarrow>
   list_all counts_nonneg (save_commit E N commits current)"
  by (auto simp: save_commit_def split: option.splits)

lemma parse_loop_nonneg:
  assumes "\<forall>line \<in> set lines. \<not> startswith ''HEADER|'' line \<longrightarrow> git_numstat_counts line"
      and "list_all counts_nonneg commits"
      and "\<And>c. current = Some c \<Longrightarrow> counts_nonneg c"
  shows "list_all counts_nonneg (parse_loop E N lines commits current)"
  using assms
proof (induction lines arbitrary: commits current)
  case Nil
  then show ?case by (simp add: save_commit_nonneg)
next
  case (Cons line rest)
  have rest: "\<forall>line \<in> set rest. \<not> startswith ''HEADER|'' line \<longrightarrow> git_numstat_counts line"
    using Cons.prems(1) by simp
  show ?case
  proof (cases "startswith ''HEADER|'' line")
    case True
    have s: "list_all counts_nonneg (save_commit E N commits current)"
      using Cons.prems(2,3) by (rule save_commit_nonneg)
    show ?thesis
    proof (cases "length (split_sep CHR ''|'' line) < 5")
      case short: True
      then show ?thesis using True s by (simp add: Let_def)
    next
      case False
      have "list_all counts_nonneg
              (parse_loop E N rest (save_commit E N commits current)
                 (Some \<lparr>hash = split_sep CHR ''|'' line ! 1, date = split_sep CHR ''|'' line ! 2,
                         name = strip (split_sep CHR ''|'' line ! 3),
                         email = lower (strip (split_sep CHR ''|'' line ! 4)),
                         additions = 0, deletions = 0, files = 0\<rparr>))"
        by (rule Cons.IH[OF rest s]) (auto simp: counts_nonneg_def)
      then show ?thesis using True False by (simp add: Let_def)
    qed
  next
    case False
    then have g: "git_numstat_counts line" using Cons.prems(1) by simp
    show ?thesis
    proof (cases current)
      case None
      then show ?thesis using False Cons.IH[OF rest Cons.prems(2), of None] by simp
    next
      case (Some c)
      then have c: "counts_nonneg c" using Cons.prems(3) by simp
      have 1: "list_all counts_nonneg (parse_loop E N rest commits (Some (numstat_line c line)))"
        by (rule Cons.IH[OF rest Cons.prems(2)]) (simp add: numstat_line_nonneg[OF g c])
      have 2: "list_all counts_nonneg (parse_loop E N rest commits (Some c))"
        by (rule Cons.IH[OF rest Cons.prems(2)]) (simp add: c)
      show ?thesis using False Some 1 2 by simp
    qed
  qed
qed

lemma parse_git_log_nonneg:
  "\<forall>line \<in> set lines. \<not> startswith ''HEADER|'' line \<longrightarrow> git_numstat_counts line \<Longrightarrow>
   list_all counts_nonneg (parse_git_log E N lines)"
  unfolding parse_git_log_def by (rule parse_loop_nonneg) simp_all

lemma main_impact:
  "c \<in> set (detailed_commits (main E N clock gl lf ps)) \<Longrightarrow>
   impact c = flat_commit.additions c + flat_commit.deletions c"
  by (auto simp: main_detailed_commits flat_commit_of_simps)

lemma main_counts_nonneg:
  assumes "\<forall>p \<in> set ps. \<forall>line \<in> set (gl p).
             \<not> startswith ''HEADER|'' line \<longrightarrow> git_numstat_counts line"
      and "c \<in> set (detailed_commits (main E N clock gl lf ps))"
  shows "0 \<le> flat_commit.additions c \<and> 0 \<le> flat_commit.deletions c"
proof -
  obtain p x where p: "p \<in> set ps" and x: "x \<in> set (parse_git_log E N (gl p))"
    and c: "c = flat_commit_of (basename p) x"
    using assms(2) by (auto simp: main_detailed_commits)
  have "list_all counts_nonneg (parse_git_log E N (gl p))"
    using assms(1) p by (intro parse_git_log_nonneg) blast
  then have "counts_nonneg x" using x by (simp add: list_all_iff)
  then show ?thesis
    by (simp add: c flat_commit_of_simps counts_nonneg_def)
qed

text \<open>
  C8, as amended. Every commit of \<open>detailed_commits\<close> has an impact that is the sum of
  its additions and deletions. And when the counts in the logs are written as git writes
  them (the sentinel \<open>-\<close> or an unsigned decimal numeral), its additions and deletions
  are not negative.
\<close>

theorem detailed_commits_impact_and_counts:
  "(\<forall>c \<in> set (detailed_commits (main E N clock gl lf ps)).
      impact c = flat_commit.additions c + flat_commit.deletions c)
   \<and> ((\<forall>p \<in> set ps. \<forall>line \<in> set (gl p).
          \<not> startswith ''HEADER|'' line \<longrightarrow> git_numstat_counts line)
        \<longrightarrow> (\<forall>c \<in> set (detailed_commits (main E N clock gl lf ps)).
               0 \<le> flat_commit.additions c \<and> 0 \<le> flat_commit.deletions c))"
  using main_impact main_counts_nonneg by blast

theorem detailed_commits_impact_and_counts_witness:
  "list_all git_numstat_counts
     (filter (\<lambda>line. \<not> startswith ''HEADER|'' line)
        (sample_git_log ''/home/me/Development/tools''))
   \<and> detailed_commits
         (main {''me@x.com''} {} sample_clock sample_git_log sample_ls_files
            [''/home/me/Development/tools''])
       = [\<lparr>date = ''2024-01-01T12:00:00+00:00'', repo = ''tools'',
            additions = 10, deletions = 2, impact = 12\<rparr>,
          \<lparr>date = ''2024-01-01T10:00:00+00:00'', repo = ''tools'',
            additions = 3, deletions = 1, impact = 4\<rparr>]
   \<and> list_all
         (\<lambda>c. 0 \<le> flat_commit.additions c \<and> 0 \<le> flat_commit.deletions c
               \<and> impact c = flat_commit.additions c + flat_commit.deletions c)
         (detailed_commits
            (main {''me@x.com''} {} sample_clock sample_git_log sample_ls_files
               [''/home/me/Development/tools'']))"
proof -
  have l: "list_all git_numstat_counts
     (filter (\<lambda>line. \<not> startswith ''HEADER|'' line)
        (sample_git_log ''/home/me/Development/tools''))"
    by (simp add: sample_git_log_def git_numstat_counts_def py_eval)
  then have h: "\<forall>p \<in> set [''/home/me/Development/tools'']. \<forall>line \<in> set (sample_git_log p).
             \<not> startswith ''HEADER|'' line \<longrightarrow> git_numstat_counts line"
    by (simp add: list_all_iff)
  have d: "detailed_commits
         (main {''me@x.com''} {} sample_clock sample_git_log sample_ls_files
            [''/home/me/Development/tools''])
       = [\<lparr>date = ''2024-01-01T12:00:00+00:00'', repo = ''tools'',
            additions = 10, deletions = 2, impact = 12\<rparr>,
          \<lparr>date = ''2024-01-01T10:00:00+00:00'', repo = ''tools'',
            additions = 3, deletions = 1, impact = 4\<rparr>]"
    by (simp add: main_detailed_commits sample_tools sample_basenames flat_commit_of_def)
  have "list_all
         (\<lambda>c. 0 \<le> flat_commit.additions c \<and> 0 \<le> flat_commit.deletions c
               \<and> impact c = flat_commit.additions c + flat_commit.deletions c)
         (detailed_commits
            (main {''me@x.com''} {} sample_clock sample_git_log sample_ls_files
               [''/home/me/Development/tools'']))"
    using h
      detailed_commits_impact_and_counts
        [of "{''me@x.com''}" "{}" sample_clock sample_git_log sample_ls_files
            "[''/home/me/Development/tools'']"]
    unfolding list_all_iff by blast
  then show ?thesis using l d by blast
qed

text \<open>
  C8 as stated fails on a log whose line carries the count \<open>-5\<close>: \<open>int\<close> reads the
  signed numeral and the commit is emitted with additions \<open>-5\<close>.
\<close>

theorem signed_count_counterexample:
  "\<not> git_numstat_counts (numstat ''-5'' ''3'' ''a.py'')
   \<and> detailed_commits
       (main {''me@x.com''} {} sample_clock signed_count_log sample_ls_files
          [''/home/me/Development/web''])
     = [\<lparr>date = ''2024-01-01T10:00:00+00:00'', repo = ''web'',
          additions = - 5, deletions = 3, impact = - 2\<rparr>]
   \<and> \<not> 0 \<le> flat_commit.additions
         (hd (detailed_commits
                (main {''me@x.com''} {} sample_clock signed_count_log sample_ls_files
                   [''/home/me/Development/web''])))"
proof -
  have p: "parse_git_log {''me@x.com''} {} (signed_count_log ''/home/me/Development/web'')
           = [\<lparr>hash = ''s1'', date = ''2024-01-01T10:00:00+00:00'', name = ''Me'',
                email = ''me@x.com'', additions = - 5, deletions = 3, files = 1\<rparr>]"
    by (simp add: signed_count_log_def py_eval)
  have d: "detailed_commits
       (main {''me@x.com''} {} sample_clock signed_count_log sample_ls_files
          [''/home/me/Development/web''])
     = [\<lparr>date = ''2024-01-01T10:00:00+00:00'', repo = ''web'',
          additions = - 5, deletions = 3, impact = - 2\<rparr>]"
    by (simp add: main_detailed_commits p sample_basenames flat_commit_of_def)
  have g: "\<not> git_numstat_counts (numstat ''-5'' ''3'' ''a.py'')"
    by (simp add: git_numstat_counts_def py_eval)
  show ?thesis using g d by simp
qed

section \<open>Matched commits\<close>

lemma save_commit_matched:
  "list_all (\<lambda>c. is_me E N (name c) (email c)) commits \<Longrightarrow>
   list_all (\<lambda>c. is_me E N (name c) (email c)) (save_commit E N commits current)"
  by (auto simp: save_commit_def split: option.splits)

lemma parse_loop_matched:
  "list_all (\<lambda>c. is_me E N (name c) (email c)) commits \<Longrightarrow>
   list_all (\<lambda>c. is_me E N (name c) (email c)) (parse_loop E N lines commits current)"
proof (induction lines arbitrary: commits current)
  case Nil
  then show ?case by (simp add: save_commit_matched)
next
  case (Cons line rest)
  show ?case
    using Cons.IH[OF Cons.prems] Cons.IH[OF save_commit_matched[OF Cons.prems]]
      save_commit_matched[OF Cons.prems]
    by (simp add: Let_def split: option.splits)
qed

text \<open>Every commit \<open>parse_git_log\<close> returns passed \<open>is_me\<close>.\<close>

lemma parse_git_log_matched:
  "c \<in> set (parse_git_log E N lines) \<Longrightarrow> is_me E N (name c) (email c)"
  using parse_loop_matched[of E N "[]" lines None]
  by (simp add: parse_git_log_def list_all_iff)

end
